theory Spec2Isabelle
  imports Complex_Main
begin

section \<open>JavaScript values\<close>

text \<open>
  The validator trees handled by \<^verbatim>\<open>src/js/mocks/normalize.ts\<close> are plain JavaScript
  values of type \<^verbatim>\<open>unknown\<close>. A value is modelled as a finite tree. An object is the list
  of its own enumerable string-keyed properties in the order \<^verbatim>\<open>Object.entries\<close> lists
  them; a JavaScript object never holds one key twice, so the lists of interest have
  distinct keys. Numbers are carried around but never computed with; only their
  truthiness is inspected. Functions and symbols are opaque.
\<close>

datatype jsnum = Finite rat | PosInf | NegInf | NaN

datatype jsval =
    JUndefined
  | JNull
  | JBool bool
  | JNum jsnum
  | JBigInt int
  | JStr string
  | JSym nat
  | JFun nat
  | JArr "jsval list"
  | JObj "(string \<times> jsval) list"

text \<open>Exceptions are values: a \<^verbatim>\<open>TypeError\<close> thrown by the runtime, or a module that fails to load.\<close>

datatype error = TypeError | ImportError

fun typeof :: "jsval \<Rightarrow> string" where
  "typeof JUndefined = ''undefined''"
| "typeof JNull = ''object''"
| "typeof (JBool b) = ''boolean''"
| "typeof (JNum n) = ''number''"
| "typeof (JBigInt i) = ''bigint''"
| "typeof (JStr s) = ''string''"
| "typeof (JSym n) = ''symbol''"
| "typeof (JFun n) = ''function''"
| "typeof (JArr xs) = ''object''"
| "typeof (JObj ps) = ''object''"

fun truthy :: "jsval \<Rightarrow> bool" where
  "truthy JUndefined = False"
| "truthy JNull = False"
| "truthy (JBool b) = b"
| "truthy (JNum n) = (n \<noteq> Finite 0 \<and> n \<noteq> NaN)"
| "truthy (JBigInt i) = (i \<noteq> 0)"
| "truthy (JStr s) = (s \<noteq> [])"
| "truthy _ = True"

fun Array_isArray :: "jsval \<Rightarrow> bool" where
  "Array_isArray (JArr xs) = True"
| "Array_isArray _ = False"

text \<open>
  Property read \<^verbatim>\<open>val.k\<close> for the fixed property names the source reads. None of them is
  inherited from \<^verbatim>\<open>Object.prototype\<close>, an array index or \<^verbatim>\<open>length\<close>, so only objects
  hold them, and a missing property reads as \<^verbatim>\<open>undefined\<close>.
\<close>

fun get :: "jsval \<Rightarrow> string \<Rightarrow> jsval" where
  "get (JObj ps) k = (case map_of ps k of None \<Rightarrow> JUndefined | Some x \<Rightarrow> x)"
| "get _ k = JUndefined"

text \<open>
  Assignment \<^verbatim>\<open>properties[key] = x\<close> on an object that starts as the plain \<^verbatim>\<open>{}\<close>. For
  the key \<^verbatim>\<open>__proto__\<close> the assignment goes to the accessor inherited from
  \<^verbatim>\<open>Object.prototype\<close>: it changes the prototype and creates no own property, so the entries
  stay as they are. (The prototype link is not part of the model: neither
  \<^verbatim>\<open>Object.entries\<close> nor the serialization of the result sees it, and the source reads no
  property of such an object.) For every other key, \<^verbatim>\<open>putOwn\<close> creates or overwrites the own
  property: an existing key keeps its position, a new key is added after the others.
  (JavaScript lists integer-like keys first, in ascending order; \<^verbatim>\<open>Object.entries\<close> hands
  them over in that order already, and the loops below insert them in it.)
\<close>

fun putOwn :: "(string \<times> jsval) list \<Rightarrow> string \<Rightarrow> jsval \<Rightarrow> (string \<times> jsval) list" where
  "putOwn [] k x = [(k, x)]"
| "putOwn ((k', y) # ps) k x =
     (if k' = k then (k, x) # ps else (k', y) # putOwn ps k x)"

definition setProperty :: "(string \<times> jsval) list \<Rightarrow> string \<Rightarrow> jsval \<Rightarrow> (string \<times> jsval) list" where
  "setProperty properties key x =
     (if key = ''__proto__'' then properties else putOwn properties key x)"

text \<open>
  \<^verbatim>\<open>Object.entries\<close>: the entries of an object; index and element for an array; index and
  one-character string for a string; nothing for the other primitives; a \<^verbatim>\<open>TypeError\<close>
  for \<^verbatim>\<open>undefined\<close> and \<^verbatim>\<open>null\<close>.
\<close>

fun digits :: "nat \<Rightarrow> string" where
  "digits n =
     (if n < 10 then [char_of (48 + n)]
      else digits (n div 10) @ [char_of (48 + n mod 10)])"

definition indexed :: "jsval list \<Rightarrow> (string \<times> jsval) list" where
  "indexed xs = zip (map digits [0..<length xs]) xs"

fun Object_entries :: "jsval \<Rightarrow> error + (string \<times> jsval) list" where
  "Object_entries JUndefined = Inl TypeError"
| "Object_entries JNull = Inl TypeError"
| "Object_entries (JObj ps) = Inr ps"
| "Object_entries (JArr xs) = Inr (indexed xs)"
| "Object_entries (JStr s) = Inr (indexed (map (\<lambda>c. JStr [c]) s))"
| "Object_entries _ = Inr []"

section \<open>The descriptor normalizer (src/js/mocks/normalize.ts)\<close>

text \<open>
  The loop \<^verbatim>\<open>for (const [key, v] of Object.entries(...)) properties[key] = normalize(v)\<close>
  and the call \<^verbatim>\<open>members.map((m) => normalize(m))\<close>, over the function applied to each
  element. The first exception ends the loop.
\<close>

fun forEntries ::
  "(jsval \<Rightarrow> error + jsval) \<Rightarrow> (string \<times> jsval) list \<Rightarrow> (string \<times> jsval) list
     \<Rightarrow> error + (string \<times> jsval) list" where
  "forEntries f [] properties = Inr properties"
| "forEntries f ((key, v) # rest) properties =
     (case f v of
        Inl e \<Rightarrow> Inl e
      | Inr d \<Rightarrow> forEntries f rest (setProperty properties key d))"

fun mapE :: "(jsval \<Rightarrow> error + jsval) \<Rightarrow> jsval list \<Rightarrow> error + jsval list" where
  "mapE f [] = Inr []"
| "mapE f (m # ms) =
     (case f m of
        Inl e \<Rightarrow> Inl e
      | Inr d \<Rightarrow> (case mapE f ms of Inl e \<Rightarrow> Inl e | Inr ds \<Rightarrow> Inr (d # ds)))"

lemma forEntries_cong [fundef_cong]:
  assumes "ps = qs" and "acc = acc'" and "\<And>k x. (k, x) \<in> set qs \<Longrightarrow> f x = g x"
  shows "forEntries f ps acc = forEntries g qs acc'"
proof -
  have "forEntries f qs a = forEntries g qs a" for a
    using assms(3)
  proof (induction qs arbitrary: a)
    case Nil
    show ?case by simp
  next
    case (Cons p qs)
    obtain k x where p: "p = (k, x)" by (cases p)
    have "(k, x) \<in> set (p # qs)" by (simp add: p)
    then have hd: "f x = g x" by (rule Cons.prems)
    have tl: "forEntries f qs b = forEntries g qs b" for b
    proof (rule Cons.IH)
      fix k' x' assume "(k', x') \<in> set qs"
      then have "(k', x') \<in> set (p # qs)" by simp
      then show "f x' = g x'" by (rule Cons.prems)
    qed
    show ?case by (simp add: p hd tl split: sum.splits)
  qed
  with assms(1,2) show ?thesis by simp
qed

lemma mapE_cong [fundef_cong]:
  assumes "ms = ns" and "\<And>x. x \<in> set ns \<Longrightarrow> f x = g x"
  shows "mapE f ms = mapE g ns"
proof -
  have "mapE f ns = mapE g ns"
    using assms(2)
  proof (induction ns)
    case Nil
    show ?case by simp
  next
    case (Cons m ns)
    have hd: "f m = g m" by (rule Cons.prems) simp
    have tl: "mapE f ns = mapE g ns"
    proof (rule Cons.IH)
      fix x assume "x \<in> set ns"
      then have "x \<in> set (m # ns)" by simp
      then show "f x = g x" by (rule Cons.prems)
    qed
    show ?case by (simp add: hd tl split: sum.splits)
  qed
  with assms(1) show ?thesis by simp
qed

definition isConvexValidator :: "jsval \<Rightarrow> bool" where
  "isConvexValidator val \<longleftrightarrow>
     val \<noteq> JNull \<and> typeof val = ''object'' \<and> get val ''isConvexValidator'' = JBool True"

definition isCodegenDescriptor :: "jsval \<Rightarrow> bool" where
  "isCodegenDescriptor val \<longleftrightarrow>
     val \<noteq> JNull \<and> typeof val = ''object'' \<and> typeof (get val ''type'') = ''string''
       \<and> \<not> truthy (get val ''isConvexValidator'')"

text \<open>The tail of \<^verbatim>\<open>normalizeValidator\<close>: \<^verbatim>\<open>if (isOpt) return { type: "optional", inner }\<close>.\<close>

definition wrapOptional :: "bool \<Rightarrow> error + jsval \<Rightarrow> error + jsval" where
  "wrapOptional isOpt r =
     (case r of
        Inl e \<Rightarrow> Inl e
      | Inr inner \<Rightarrow>
          if isOpt then Inr (JObj [(''type'', JStr ''optional''), (''inner'', inner)])
          else Inr inner)"

text \<open>
  \<^verbatim>\<open>normalize\<close> and \<^verbatim>\<open>normalizeValidator\<close>, branch by branch. The \<^verbatim>\<open>switch\<close> on the kind
  is the chain of conditionals. \<^verbatim>\<open>members.map\<close> on a value that is not an array throws.
\<close>

function normalize :: "jsval \<Rightarrow> error + jsval"
  and normalizeValidator :: "jsval \<Rightarrow> error + jsval" where
  "normalize val =
     (if isCodegenDescriptor val then Inr val
      else if isConvexValidator val then normalizeValidator val
      else if val \<noteq> JNull \<and> typeof val = ''object'' \<and> \<not> Array_isArray val then
        (case Object_entries val of
           Inl e \<Rightarrow> Inl e
         | Inr es \<Rightarrow>
             (case forEntries normalize es [] of
                Inl e \<Rightarrow> Inl e
              | Inr properties \<Rightarrow>
                  Inr (JObj [(''type'', JStr ''object''), (''properties'', JObj properties)])))
      else Inr (JObj [(''type'', JStr ''any'')]))"
| "normalizeValidator v =
     wrapOptional (get v ''isOptional'' = JStr ''optional'')
       (if get v ''kind'' = JStr ''string'' \<or> get v ''kind'' = JStr ''boolean''
           \<or> get v ''kind'' = JStr ''int64'' \<or> get v ''kind'' = JStr ''null''
           \<or> get v ''kind'' = JStr ''any'' \<or> get v ''kind'' = JStr ''bytes''
        then Inr (JObj [(''type'', get v ''kind'')])
        else if get v ''kind'' = JStr ''float64'' then Inr (JObj [(''type'', JStr ''number'')])
        else if get v ''kind'' = JStr ''id'' then
          Inr (JObj [(''type'', JStr ''id''), (''tableName'', get v ''tableName'')])
        else if get v ''kind'' = JStr ''literal'' then
          Inr (JObj [(''type'', JStr ''literal''), (''value'', get v ''value'')])
        else if get v ''kind'' = JStr ''object'' then
          (case (if truthy (get v ''fields'') then
                   (case Object_entries (get v ''fields'') of
                      Inl e \<Rightarrow> Inl e
                    | Inr es \<Rightarrow> forEntries normalize es [])
                 else Inr []) of
             Inl e \<Rightarrow> Inl e
           | Inr properties \<Rightarrow>
               Inr (JObj [(''type'', JStr ''object''), (''properties'', JObj properties)]))
        else if get v ''kind'' = JStr ''array'' then
          (case normalize (get v ''element'') of
             Inl e \<Rightarrow> Inl e
           | Inr elements \<Rightarrow> Inr (JObj [(''type'', JStr ''array''), (''elements'', elements)]))
        else if get v ''kind'' = JStr ''union'' then
          (case get v ''members'' of
             JArr members \<Rightarrow>
               (case mapE normalize members of
                  Inl e \<Rightarrow> Inl e
                | Inr variants \<Rightarrow>
                    Inr (JObj [(''type'', JStr ''union''), (''variants'', JArr variants)]))
           | _ \<Rightarrow> Inl TypeError)
        else if get v ''kind'' = JStr ''record'' then
          (case normalize (get v ''key'') of
             Inl e \<Rightarrow> Inl e
           | Inr keyType \<Rightarrow>
               (case normalize (get v ''value'') of
                  Inl e \<Rightarrow> Inl e
                | Inr valueType \<Rightarrow>
                    Inr (JObj [(''type'', JStr ''record''), (''keyType'', keyType),
                               (''valueType'', valueType)])))
        else Inr (JObj [(''type'', JStr ''any'')]))"
  by pat_completeness auto

lemma size_member: "(k, x) \<in> set ps \<Longrightarrow> size x < size (JObj ps)"
  by (induction ps) auto

lemma size_elem: "x \<in> set xs \<Longrightarrow> size x < size (JArr xs)"
  by (induction xs) auto

lemma size_map_of: "map_of ps k = Some x \<Longrightarrow> size x < size (JObj ps)"
  by (rule size_member [of k]) (erule map_of_SomeD)

lemma size_get: "get v k' \<noteq> JUndefined \<Longrightarrow> size (get v k) < size v"
  by (cases v) (auto split: option.splits dest: size_map_of)

lemma indexed_snd: "(k, x) \<in> set (indexed xs) \<Longrightarrow> x \<in> set xs"
  unfolding indexed_def by (erule set_zip_rightD)

lemma size_entries: "Object_entries f = Inr es \<Longrightarrow> (k, x) \<in> set es \<Longrightarrow> size x \<le> size f"
  by (cases f) (auto dest!: indexed_snd dest: size_member size_elem less_imp_le)

lemma truthy_defined: "truthy x \<Longrightarrow> x \<noteq> JUndefined"
  by auto

text \<open>
  Every recursive call descends into a property, an entry or a member of its argument,
  so the recursion ends on every value.
\<close>

termination normalize
proof (relation "measure (\<lambda>x. case x of Inl v \<Rightarrow> 2 * size v + 1 | Inr v \<Rightarrow> 2 * size v)",
    goal_cases)
  case 1
  show ?case by simp
next
  case (2 val)
  show ?case by simp
next
  case (3 val es k x)
  then show ?case by (cases val) (auto dest: size_member)
next
  case (4 v es k x)
  have "size x \<le> size (get v ''fields'')" using 4 size_entries by blast
  moreover have "size (get v ''fields'') < size v" using 4 size_get truthy_defined by blast
  ultimately show ?case by simp
next
  case (5 v)
  then have "get v ''kind'' \<noteq> JUndefined" by simp
  then have "size (get v ''element'') < size v" by (rule size_get)
  then show ?case by simp
next
  case (6 v ms x)
  then have "get v ''kind'' \<noteq> JUndefined" by simp
  then have "size (get v ''members'') < size v" by (rule size_get)
  moreover from 6 have "x \<in> set ms" by simp
  then have "size x < size (JArr ms)" by (rule size_elem)
  then have "size x < size (get v ''members'')" using 6 by simp
  ultimately show ?case by simp
next
  case (7 v)
  then have "get v ''kind'' \<noteq> JUndefined" by simp
  then have "size (get v ''key'') < size v" by (rule size_get)
  then show ?case by simp
next
  case (8 v kt)
  then have "get v ''kind'' \<noteq> JUndefined" by simp
  then have "size (get v ''value'') < size v" by (rule size_get)
  then show ?case by simp
qed

declare normalize.simps [simp del] normalizeValidator.simps [simp del]

section \<open>The server stand-ins (src/js/mocks/convex_server.ts and its successor)\<close>

text \<open>\<^verbatim>\<open>makeFunctionRegistrar(type)\<close> applied to a configuration.\<close>

definition makeFunctionRegistrar :: "string \<Rightarrow> jsval \<Rightarrow> jsval" where
  "makeFunctionRegistrar type config = JObj [(''__type'', JStr type), (''__config'', config)]"

definition query :: "jsval \<Rightarrow> jsval" where
  "query = makeFunctionRegistrar ''query''"


definition action :: "jsval \<Rightarrow> jsval" where
  "action = makeFunctionRegistrar ''action''"

text \<open>
  The pagination-options constant, as \<^verbatim>\<open>src/js/mocks/convex_server.ts\<close> has it, and as the
  later version of the same module (the one that imports \<^verbatim>\<open>normalize\<close>) has it.
\<close>

definition paginationOptsValidator :: jsval where
  "paginationOptsValidator =
     JObj [(''type'', JStr ''object''),
           (''properties'',
            JObj [(''numItems'', JObj [(''type'', JStr ''number'')]),
                  (''cursor'',
                   JObj [(''type'', JStr ''union''),
                         (''variants'',
                          JArr [JObj [(''type'', JStr ''string'')],
                                JObj [(''type'', JStr ''null'')]])])])]"

definition paginationOptsValidator2 :: jsval where
  "paginationOptsValidator2 =
     JObj [(''type'', JStr ''object''),
           (''properties'',
            JObj [(''numItems'', JObj [(''type'', JStr ''float64'')]),
                  (''cursor'',
                   JObj [(''type'', JStr ''union''),
                         (''variants'',
                          JArr [JObj [(''type'', JStr ''string'')],
                                JObj [(''type'', JStr ''null'')]])])])]"

section \<open>The constructors of the values stand-in (src/js/mocks/convex_values.ts)\<close>

definition v_string :: jsval where
  "v_string = JObj [(''type'', JStr ''string'')]"

definition v_number :: jsval where
  "v_number = JObj [(''type'', JStr ''number'')]"

definition v_float64 :: jsval where
  "v_float64 = JObj [(''type'', JStr ''float64'')]"

definition v_null :: jsval where
  "v_null = JObj [(''type'', JStr ''null'')]"

definition v_optional :: "jsval \<Rightarrow> jsval" where
  "v_optional inner = JObj [(''type'', JStr ''optional''), (''inner'', inner)]"

definition v_object :: "(string \<times> jsval) list \<Rightarrow> jsval" where
  "v_object fields = JObj [(''type'', JStr ''object''), (''properties'', JObj fields)]"

definition v_union :: "jsval list \<Rightarrow> jsval" where
  "v_union variants = JObj [(''type'', JStr ''union''), (''variants'', JArr variants)]"

definition v_literal :: "jsval \<Rightarrow> jsval" where
  "v_literal val = JObj [(''type'', JStr ''literal''), (''value'', val)]"

section \<open>The extraction driver (src/js/extractor.ts)\<close>

record FunctionRecord =
  name :: string
  type :: jsval
  params :: "(string \<times> jsval) list"
  return_type :: jsval
  file_name :: string

text \<open>\<^verbatim>\<open>fp.split("/")\<close>: never empty; an empty path splits into one empty part.\<close>

fun split :: "char \<Rightarrow> string \<Rightarrow> string list" where
  "split sep [] = [[]]"
| "split sep (c # cs) =
     (if c = sep then [] # split sep cs
      else (case split sep cs of [] \<Rightarrow> [[c]] | p # ps \<Rightarrow> (c # p) # ps))"








text \<open>\<^verbatim>\<open>normalize(normalize(x))\<close>: the second call runs on what the first returns.\<close>

definition normalizeTwice :: "jsval \<Rightarrow> error + jsval" where
  "normalizeTwice x = (case normalize x of Inl e \<Rightarrow> Inl e | Inr y \<Rightarrow> normalize y)"

text \<open>The labels of the \<^verbatim>\<open>switch\<close> in \<^verbatim>\<open>normalizeValidator\<close>.\<close>

definition knownKinds :: "string list" where
  "knownKinds =
     [''string'', ''boolean'', ''int64'', ''null'', ''any'', ''bytes'', ''float64'', ''id'',
      ''literal'', ''object'', ''array'', ''union'', ''record'']"

section \<open>Vocabulary of the statements\<close>

text \<open>
  \<^verbatim>\<open>fieldwise fs props\<close>: \<^verbatim>\<open>props\<close> has the field names of \<^verbatim>\<open>fs\<close>, in the same order, and
  the value of each field is what \<^verbatim>\<open>normalize\<close> returns for the value of that field in
  \<^verbatim>\<open>fs\<close>. \<^verbatim>\<open>memberwise ms ds\<close>: \<^verbatim>\<open>ds\<close> is as long as \<^verbatim>\<open>ms\<close> and each of its elements is
  what \<^verbatim>\<open>normalize\<close> returns for the member of \<^verbatim>\<open>ms\<close> at the same position.
\<close>

definition fieldwise :: "(string \<times> jsval) list \<Rightarrow> (string \<times> jsval) list \<Rightarrow> bool" where
  "fieldwise fs props \<longleftrightarrow>
     list_all2 (\<lambda>f p. fst p = fst f \<and> normalize (snd f) = Inr (snd p)) fs props"

definition memberwise :: "jsval list \<Rightarrow> jsval list \<Rightarrow> bool" where
  "memberwise ms ds \<longleftrightarrow> list_all2 (\<lambda>m d. normalize m = Inr d) ms ds"

text \<open>
  The entries that the loops of \<^verbatim>\<open>normalize\<close> leave out: a field named \<^verbatim>\<open>__proto__\<close>
  is normalized like the others, but the assignment creates no property for it.
\<close>

definition withoutProto :: "(string \<times> jsval) list \<Rightarrow> (string \<times> jsval) list" where
  "withoutProto ps = filter (\<lambda>p. fst p \<noteq> ''__proto__'') ps"

text \<open>
  The same real-library validator with its optional flag cleared, as the library
  builds it before \<^verbatim>\<open>v.optional\<close> flags it: \<^verbatim>\<open>isOptional\<close> is \<^verbatim>\<open>"required"\<close>, every other
  property is as it was.
\<close>

definition required :: "jsval \<Rightarrow> jsval" where
  "required v =
     (case v of JObj ps \<Rightarrow> JObj (setProperty ps ''isOptional'' (JStr ''required'')) | _ \<Rightarrow> v)"

text \<open>
  A member of a tagged union, as the real library builds it: an object validator, not
  flagged optional, whose field mapping has a field \<^verbatim>\<open>type\<close> that is a literal validator, not
  flagged optional, and whose fields all normalize without an exception. And what is asked
  of the Descriptor of such a member: an object Descriptor whose \<^verbatim>\<open>type\<close> field is the
  literal Descriptor of the member's literal value.
\<close>

definition isLiteralValidator :: "jsval \<Rightarrow> bool" where
  "isLiteralValidator lit \<longleftrightarrow>
     isConvexValidator lit \<and> get lit ''kind'' = JStr ''literal''
       \<and> get lit ''isOptional'' \<noteq> JStr ''optional''"

definition taggedMember :: "jsval \<Rightarrow> bool" where
  "taggedMember m \<longleftrightarrow>
     isConvexValidator m \<and> get m ''kind'' = JStr ''object''
       \<and> get m ''isOptional'' \<noteq> JStr ''optional''
       \<and> (case get m ''fields'' of
            JObj fs \<Rightarrow>
              distinct (map fst fs) \<and> isLiteralValidator (get (JObj fs) ''type'')
                \<and> list_all (\<lambda>f. \<not> isl (normalize (snd f))) fs
          | _ \<Rightarrow> False)"

definition taggedResult :: "jsval \<Rightarrow> jsval \<Rightarrow> bool" where
  "taggedResult m d \<longleftrightarrow>
     (case get d ''properties'' of
        JObj props \<Rightarrow>
          d = v_object props
            \<and> get (JObj props) ''type''
                = v_literal (get (get (get m ''fields'') ''type'') ''value'')
      | _ \<Rightarrow> False)"

text \<open>
  How the real library presents, as a validator, what a canonical Descriptor describes.
  \<^verbatim>\<open>corresponds r d\<close>: the real-library validator \<^verbatim>\<open>r\<close> and the Descriptor \<^verbatim>\<open>d\<close> are built by
  the same constructors. The kind of \<^verbatim>\<open>r\<close> is the \<^verbatim>\<open>type\<close> of \<^verbatim>\<open>d\<close>, except that the library's
  kind for \<^verbatim>\<open>v.number()\<close> is \<^verbatim>\<open>"float64"\<close> where the Descriptor says \<^verbatim>\<open>"number"\<close>; the payloads
  \<^verbatim>\<open>fields\<close>, \<^verbatim>\<open>element\<close>, \<^verbatim>\<open>members\<close>, \<^verbatim>\<open>key\<close> and \<^verbatim>\<open>value\<close> of \<^verbatim>\<open>r\<close> correspond to
  \<^verbatim>\<open>properties\<close>, \<^verbatim>\<open>elements\<close>, \<^verbatim>\<open>variants\<close>, \<^verbatim>\<open>keyType\<close> and \<^verbatim>\<open>valueType\<close> of \<^verbatim>\<open>d\<close>, field by
  field and member by member; \<^verbatim>\<open>r\<close> is flagged optional exactly when \<^verbatim>\<open>d\<close> is an optional
  wrapper (\<^verbatim>\<open>correspondsKind r d\<close> relates \<^verbatim>\<open>r\<close> to the Descriptor under the wrapper). Field names are
  distinct and none is \<^verbatim>\<open>__proto__\<close>. The relation is stated without \<^verbatim>\<open>normalize\<close>.
\<close>

inductive correspondsKind :: "jsval \<Rightarrow> jsval \<Rightarrow> bool"
  and corresponds :: "jsval \<Rightarrow> jsval \<Rightarrow> bool"
  and correspondsFields :: "(string \<times> jsval) list \<Rightarrow> (string \<times> jsval) list \<Rightarrow> bool"
  and correspondsMembers :: "jsval list \<Rightarrow> jsval list \<Rightarrow> bool" where
  primitive_kind:
    "get r ''kind'' = JStr k \<Longrightarrow>
     k \<in> {''string'', ''boolean'', ''int64'', ''null'', ''any'', ''bytes''} \<Longrightarrow>
     correspondsKind r (JObj [(''type'', JStr k)])"
| number_kind:
    "get r ''kind'' = JStr ''float64'' \<Longrightarrow> correspondsKind r v_number"
| id_kind:
    "get r ''kind'' = JStr ''id'' \<Longrightarrow>
     correspondsKind r (JObj [(''type'', JStr ''id''), (''tableName'', get r ''tableName'')])"
| literal_kind:
    "get r ''kind'' = JStr ''literal'' \<Longrightarrow> correspondsKind r (v_literal (get r ''value''))"
| object_kind:
    "get r ''kind'' = JStr ''object'' \<Longrightarrow> get r ''fields'' = JObj rs \<Longrightarrow>
     distinct (map fst rs) \<Longrightarrow> ''__proto__'' \<notin> fst ` set rs \<Longrightarrow>
     correspondsFields rs ds \<Longrightarrow> correspondsKind r (v_object ds)"
| array_kind:
    "get r ''kind'' = JStr ''array'' \<Longrightarrow> corresponds (get r ''element'') e \<Longrightarrow>
     correspondsKind r (JObj [(''type'', JStr ''array''), (''elements'', e)])"
| union_kind:
    "get r ''kind'' = JStr ''union'' \<Longrightarrow> get r ''members'' = JArr ms \<Longrightarrow>
     correspondsMembers ms ds \<Longrightarrow> correspondsKind r (v_union ds)"
| record_kind:
    "get r ''kind'' = JStr ''record'' \<Longrightarrow> corresponds (get r ''key'') kd \<Longrightarrow>
     corresponds (get r ''value'') vd \<Longrightarrow>
     correspondsKind r (JObj [(''type'', JStr ''record''), (''keyType'', kd), (''valueType'', vd)])"
| not_flagged:
    "isConvexValidator r \<Longrightarrow> get r ''isOptional'' \<noteq> JStr ''optional'' \<Longrightarrow> correspondsKind r d \<Longrightarrow>
     corresponds r d"
| flagged:
    "isConvexValidator r \<Longrightarrow> get r ''isOptional'' = JStr ''optional'' \<Longrightarrow> correspondsKind r d \<Longrightarrow>
     corresponds r (v_optional d)"
| no_fields: "correspondsFields [] []"
| field:
    "corresponds r d \<Longrightarrow> correspondsFields rs ds \<Longrightarrow>
     correspondsFields ((k, r) # rs) ((k, d) # ds)"
| no_members: "correspondsMembers [] []"
| member:
    "corresponds r d \<Longrightarrow> correspondsMembers rs ds \<Longrightarrow> correspondsMembers (r # rs) (d # ds)"


section \<open>Basic facts about the normalizer\<close>

lemma normalize_canonical: "isCodegenDescriptor val \<Longrightarrow> normalize val = Inr val"
  by (simp add: normalize.simps)

lemma validator_not_canonical: "isConvexValidator val \<Longrightarrow> \<not> isCodegenDescriptor val"
  by (simp add: isConvexValidator_def isCodegenDescriptor_def)

lemma normalize_validator: "isConvexValidator val \<Longrightarrow> normalize val = normalizeValidator val"
  by (simp add: normalize.simps validator_not_canonical)

lemma normalize_mapping:
  "\<not> isCodegenDescriptor (JObj ps) \<Longrightarrow> \<not> isConvexValidator (JObj ps) \<Longrightarrow>
   normalize (JObj ps) =
     (case forEntries normalize ps [] of
        Inl e \<Rightarrow> Inl e
      | Inr properties \<Rightarrow>
          Inr (JObj [(''type'', JStr ''object''), (''properties'', JObj properties)]))"
  by (simp add: normalize.simps)

lemma normalize_fallback:
  "\<not> isCodegenDescriptor val \<Longrightarrow> \<not> isConvexValidator val \<Longrightarrow>
   \<not> (val \<noteq> JNull \<and> typeof val = ''object'' \<and> \<not> Array_isArray val) \<Longrightarrow>
   normalize val = Inr (JObj [(''type'', JStr ''any'')])"
  by (subst normalize.simps) auto

lemma normalizeValidator_canonical:
  "normalizeValidator v = Inr d \<Longrightarrow> isCodegenDescriptor d"
  by (auto simp: normalizeValidator.simps wrapOptional_def isCodegenDescriptor_def
      split: if_splits sum.splits jsval.splits)

lemma normalize_result_canonical:
  assumes "normalize val = Inr d"
  shows "isCodegenDescriptor d"
proof (cases "isCodegenDescriptor val")
  case True
  with assms show ?thesis by (simp add: normalize_canonical)
next
  case canonical: False
  show ?thesis
  proof (cases "isConvexValidator val")
    case True
    with assms show ?thesis by (simp add: normalize_validator normalizeValidator_canonical)
  next
    case False
    with canonical assms show ?thesis
      by (subst (asm) normalize.simps)
        (auto simp: isCodegenDescriptor_def split: if_splits sum.splits)
  qed
qed

lemma mapE_Inr_iff: "mapE f xs = Inr ds \<longleftrightarrow> list_all2 (\<lambda>x d. f x = Inr d) xs ds"
proof (induction xs arbitrary: ds)
  case Nil
  show ?case by auto
next
  case (Cons x xs)
  show ?case
  proof (cases "f x")
    case (Inl e)
    then show ?thesis by (simp add: list_all2_Cons1)
  next
    case fx: (Inr d)
    show ?thesis
    proof (cases "mapE f xs")
      case (Inl e)
      have "\<not> list_all2 (\<lambda>x d. f x = Inr d) xs ds'" for ds'
        using Cons.IH [of ds'] Inl by simp
      then show ?thesis by (simp add: fx Inl list_all2_Cons1)
    next
      case (Inr ds')
      have "list_all2 (\<lambda>x d. f x = Inr d) xs ds'' \<longleftrightarrow> ds'' = ds'" for ds''
        using Cons.IH [of ds''] Inr by auto
      then show ?thesis by (auto simp: fx Inr list_all2_Cons1)
    qed
  qed
qed

lemma putOwn_fresh: "k \<notin> fst ` set ps \<Longrightarrow> putOwn ps k x = ps @ [(k, x)]"
  by (induction ps) auto

lemma setProperty_fresh:
  "k \<notin> fst ` set ps \<Longrightarrow> setProperty ps k x = ps @ withoutProto [(k, x)]"
  by (simp add: setProperty_def withoutProto_def putOwn_fresh)

lemma withoutProto_append: "withoutProto (ps @ qs) = withoutProto ps @ withoutProto qs"
  by (simp add: withoutProto_def)

lemma withoutProto_id: "''__proto__'' \<notin> fst ` set ps \<Longrightarrow> withoutProto ps = ps"
  unfolding withoutProto_def by (induction ps) auto

lemma withoutProto_keys: "fst ` set (withoutProto ps) \<subseteq> fst ` set ps"
  by (auto simp: withoutProto_def)

lemma map_of_withoutProto:
  "k \<noteq> ''__proto__'' \<Longrightarrow> map_of (withoutProto ps) k = map_of ps k"
  unfolding withoutProto_def by (induction ps) auto

lemma forEntries_Inr_iff:
  "distinct (map fst es) \<Longrightarrow> fst ` set acc \<inter> fst ` set es = {} \<Longrightarrow>
   forEntries f es acc = Inr props \<longleftrightarrow>
     (\<exists>new. props = acc @ withoutProto new
        \<and> list_all2 (\<lambda>e p. fst p = fst e \<and> f (snd e) = Inr (snd p)) es new)"
proof (induction es arbitrary: acc props)
  case Nil
  show ?case by (auto simp: withoutProto_def)
next
  case (Cons e es)
  obtain k x where e: "e = (k, x)" by (cases e)
  show ?case
  proof (cases "f x")
    case (Inl err)
    then show ?thesis by (auto simp: e list_all2_Cons1)
  next
    case (Inr d)
    from Cons.prems have fresh: "k \<notin> fst ` set acc" by (auto simp: e)
    from Cons.prems have dist: "distinct (map fst es)" by simp
    from Cons.prems have "k \<notin> fst ` set es" and "fst ` set acc \<inter> fst ` set es = {}"
      by (auto simp: e)
    with withoutProto_keys [of "[(k, d)]"]
    have disj: "fst ` set (acc @ withoutProto [(k, d)]) \<inter> fst ` set es = {}"
      by auto
    have "forEntries f (e # es) acc = forEntries f es (acc @ withoutProto [(k, d)])"
      by (simp add: e Inr setProperty_fresh [OF fresh])
    also have "\<dots> = Inr props \<longleftrightarrow>
        (\<exists>new. props = (acc @ withoutProto [(k, d)]) @ withoutProto new
           \<and> list_all2 (\<lambda>e p. fst p = fst e \<and> f (snd e) = Inr (snd p)) es new)"
      by (rule Cons.IH [OF dist disj])
    also have "\<dots> \<longleftrightarrow>
        (\<exists>new. props = acc @ withoutProto new
           \<and> list_all2 (\<lambda>e p. fst p = fst e \<and> f (snd e) = Inr (snd p)) (e # es) new)"
    proof
      assume "\<exists>new. props = (acc @ withoutProto [(k, d)]) @ withoutProto new
           \<and> list_all2 (\<lambda>e p. fst p = fst e \<and> f (snd e) = Inr (snd p)) es new"
      then obtain new where "props = (acc @ withoutProto [(k, d)]) @ withoutProto new"
        and "list_all2 (\<lambda>e p. fst p = fst e \<and> f (snd e) = Inr (snd p)) es new"
        by blast
      then have "props = acc @ withoutProto ((k, d) # new)
          \<and> list_all2 (\<lambda>e p. fst p = fst e \<and> f (snd e) = Inr (snd p)) (e # es) ((k, d) # new)"
        using withoutProto_append [of "[(k, d)]" new] by (simp add: e Inr)
      then show "\<exists>new. props = acc @ withoutProto new
           \<and> list_all2 (\<lambda>e p. fst p = fst e \<and> f (snd e) = Inr (snd p)) (e # es) new"
        by blast
    next
      assume "\<exists>new. props = acc @ withoutProto new
           \<and> list_all2 (\<lambda>e p. fst p = fst e \<and> f (snd e) = Inr (snd p)) (e # es) new"
      then obtain p new' where "props = acc @ withoutProto (p # new')"
        and "fst p = k" and "Inr d = Inr (snd p)"
        and "list_all2 (\<lambda>e p. fst p = fst e \<and> f (snd e) = Inr (snd p)) es new'"
        by (auto simp: e Inr list_all2_Cons1)
      moreover from this have "p = (k, d)" by (cases p) simp
      ultimately have "props = (acc @ withoutProto [(k, d)]) @ withoutProto new'
          \<and> list_all2 (\<lambda>e p. fst p = fst e \<and> f (snd e) = Inr (snd p)) es new'"
        using withoutProto_append [of "[(k, d)]" new'] by simp
      then show "\<exists>new. props = (acc @ withoutProto [(k, d)]) @ withoutProto new
           \<and> list_all2 (\<lambda>e p. fst p = fst e \<and> f (snd e) = Inr (snd p)) es new"
        by blast
    qed
    finally show ?thesis .
  qed
qed

lemma forEntries_normalize:
  "distinct (map fst es) \<Longrightarrow>
   forEntries normalize es [] = Inr props \<longleftrightarrow>
     (\<exists>new. props = withoutProto new \<and> fieldwise es new)"
  using forEntries_Inr_iff [of es "[]" normalize props] by (simp add: fieldwise_def)

lemma fieldwise_keys: "fieldwise fs props \<Longrightarrow> map fst props = map fst fs"
  unfolding fieldwise_def by (induction fs props rule: list_all2_induct) auto

lemma fieldwise_canonical:
  "list_all (\<lambda>f. isCodegenDescriptor (snd f)) fs \<Longrightarrow> fieldwise fs props \<longleftrightarrow> props = fs"
  unfolding fieldwise_def
proof (induction fs arbitrary: props)
  case Nil
  show ?case by auto
next
  case (Cons f fs)
  obtain k d where f: "f = (k, d)" by (cases f)
  from Cons.prems have d: "normalize d = Inr d" by (simp add: f normalize_canonical)
  from Cons.prems have rest: "list_all (\<lambda>f. isCodegenDescriptor (snd f)) fs" by simp
  show ?case
  proof (cases props)
    case Nil
    then show ?thesis by simp
  next
    case (Cons p ps)
    obtain k' d' where p: "p = (k', d')" by (cases p)
    show ?thesis
      using Cons.IH [OF rest, of ps] by (auto simp: Cons p f d)
  qed
qed

lemma memberwise_length: "memberwise ms ds \<Longrightarrow> length ds = length ms"
  unfolding memberwise_def by (simp add: list_all2_lengthD)

lemma normalizeValidator_object:
  "get v ''kind'' = JStr ''object'' \<Longrightarrow> get v ''fields'' = JObj fs \<Longrightarrow>
   normalizeValidator v =
     wrapOptional (get v ''isOptional'' = JStr ''optional'')
       (case forEntries normalize fs [] of
          Inl e \<Rightarrow> Inl e
        | Inr properties \<Rightarrow> Inr (v_object properties))"
  unfolding v_object_def by (simp add: normalizeValidator.simps)

lemma normalizeValidator_union:
  "get v ''kind'' = JStr ''union'' \<Longrightarrow> get v ''members'' = JArr ms \<Longrightarrow>
   normalizeValidator v =
     wrapOptional (get v ''isOptional'' = JStr ''optional'')
       (case mapE normalize ms of
          Inl e \<Rightarrow> Inl e
        | Inr variants \<Rightarrow> Inr (v_union variants))"
  unfolding v_union_def by (simp add: normalizeValidator.simps)

lemma wrapOptional_Inr_iff:
  "wrapOptional b r = Inr d \<longleftrightarrow> (\<exists>inner. r = Inr inner \<and> d = (if b then v_optional inner else inner))"
  by (cases r) (auto simp: wrapOptional_def v_optional_def)

lemma mapping_object_iff:
  assumes "\<not> isCodegenDescriptor (JObj fs)" and "\<not> isConvexValidator (JObj fs)"
    and "distinct (map fst fs)"
  shows "normalize (JObj fs) = Inr d \<longleftrightarrow>
    (\<exists>new. d = v_object (withoutProto new) \<and> fieldwise fs new)"
proof -
  have "normalize (JObj fs) = Inr d \<longleftrightarrow>
      (\<exists>props. forEntries normalize fs [] = Inr props \<and> d = v_object props)"
    by (auto simp: normalize_mapping [OF assms(1,2)] v_object_def split: sum.splits)
  then show ?thesis
    by (auto simp: forEntries_normalize [OF assms(3)])
qed

lemma validator_object_iff:
  assumes "isConvexValidator v" and "get v ''kind'' = JStr ''object''"
    and "get v ''fields'' = JObj fs" and "distinct (map fst fs)"
  shows "normalize v = Inr d \<longleftrightarrow>
    (\<exists>new. d = (if get v ''isOptional'' = JStr ''optional''
                then v_optional (v_object (withoutProto new))
                else v_object (withoutProto new))
       \<and> fieldwise fs new)"
proof -
  have "normalize v = Inr d \<longleftrightarrow>
      (\<exists>props. forEntries normalize fs [] = Inr props
         \<and> d = (if get v ''isOptional'' = JStr ''optional''
                then v_optional (v_object props) else v_object props))"
    by (auto simp: normalize_validator [OF assms(1)] normalizeValidator_object [OF assms(2,3)]
        wrapOptional_Inr_iff split: sum.splits)
  then show ?thesis
    by (auto simp: forEntries_normalize [OF assms(4)])
qed

lemma validator_union_iff:
  assumes "isConvexValidator v" and "get v ''kind'' = JStr ''union''"
    and "get v ''members'' = JArr ms"
  shows "normalize v = Inr d \<longleftrightarrow>
    (\<exists>ds. d = (if get v ''isOptional'' = JStr ''optional''
               then v_optional (v_union ds) else v_union ds)
       \<and> memberwise ms ds)"
proof -
  have "normalize v = Inr d \<longleftrightarrow>
      (\<exists>ds. mapE normalize ms = Inr ds
         \<and> d = (if get v ''isOptional'' = JStr ''optional''
                then v_optional (v_union ds) else v_union ds))"
    by (auto simp: normalize_validator [OF assms(1)] normalizeValidator_union [OF assms(2,3)]
        wrapOptional_Inr_iff split: sum.splits)
  then show ?thesis
    by (auto simp: mapE_Inr_iff memberwise_def)
qed

lemma map_of_putOwn:
  "map_of (putOwn ps k x) k' = (if k' = k then Some x else map_of ps k')"
  by (induction ps) auto

lemma validator_is_object: "isConvexValidator v \<Longrightarrow> \<exists>ps. v = JObj ps"
  by (cases v) (simp_all add: isConvexValidator_def)

lemma get_required:
  "isConvexValidator v \<Longrightarrow>
   get (required v) k = (if k = ''isOptional'' then JStr ''required'' else get v k)"
  by (auto simp: required_def setProperty_def map_of_putOwn dest!: validator_is_object)

lemma required_validator:
  assumes "isConvexValidator v"
  shows "isConvexValidator (required v)"
proof -
  from assms obtain ps where "v = JObj ps" by (auto dest: validator_is_object)
  then have "required v \<noteq> JNull" and "typeof (required v) = ''object''"
    by (simp_all add: required_def)
  moreover have "get (required v) ''isConvexValidator'' = JBool True"
    using assms by (simp add: get_required [OF assms] isConvexValidator_def)
  ultimately show ?thesis by (simp add: isConvexValidator_def)
qed

lemma wrapOptional_False: "wrapOptional False r = r"
  by (cases r) (simp_all add: wrapOptional_def)

lemma normalizeValidator_required:
  assumes "isConvexValidator v"
  shows "normalizeValidator v =
    wrapOptional (get v ''isOptional'' = JStr ''optional'') (normalizeValidator (required v))"
  by (subst normalizeValidator.simps [of v], subst normalizeValidator.simps [of "required v"])
    (simp add: get_required [OF assms] wrapOptional_False cong: sum.case_cong)

lemma switch_not_optional:
  "normalizeValidator v = Inr d \<Longrightarrow> get v ''isOptional'' \<noteq> JStr ''optional'' \<Longrightarrow>
   get d ''type'' \<noteq> JStr ''optional''"
  by (auto simp: normalizeValidator.simps wrapOptional_def
      split: if_splits sum.splits jsval.splits)

lemma canonical_fields_mapping:
  assumes "list_all (\<lambda>f. isCodegenDescriptor (snd f)) fs"
  shows "\<not> isCodegenDescriptor (JObj fs)" and "\<not> isConvexValidator (JObj fs)"
proof -
  have "typeof (get (JObj fs) k) \<noteq> ''string'' \<and> get (JObj fs) k \<noteq> JBool True" for k
  proof (cases "map_of fs k")
    case None
    then show ?thesis by simp
  next
    case (Some d)
    then have "(k, d) \<in> set fs" by (rule map_of_SomeD)
    with assms have "isCodegenDescriptor d" by (auto simp: list_all_iff)
    then have "typeof d = ''object''" by (simp add: isCodegenDescriptor_def)
    with Some show ?thesis by auto
  qed
  then show "\<not> isCodegenDescriptor (JObj fs)" and "\<not> isConvexValidator (JObj fs)"
    by (simp_all add: isCodegenDescriptor_def isConvexValidator_def)
qed

lemma fieldwise_lookup:
  "fieldwise fs props \<Longrightarrow> map_of fs k = Some x \<Longrightarrow>
   \<exists>d. map_of props k = Some d \<and> normalize x = Inr d"
  unfolding fieldwise_def
  by (induction fs props rule: list_all2_induct) (auto split: if_splits)

lemma fieldwise_total:
  "list_all (\<lambda>f. \<not> isl (normalize (snd f))) fs \<Longrightarrow>
   fieldwise fs (map (\<lambda>f. (fst f, projr (normalize (snd f)))) fs)"
  unfolding fieldwise_def
  by (induction fs) auto

lemma literal_validator:
  "isLiteralValidator lit \<Longrightarrow> normalize lit = Inr (v_literal (get lit ''value''))"
  by (simp add: isLiteralValidator_def normalize_validator normalizeValidator.simps
      wrapOptional_def v_literal_def)

lemma tagged_member:
  assumes "taggedMember m"
  shows "\<exists>d. normalize m = Inr d \<and> taggedResult m d"
proof -
  from assms obtain fs where fs: "get m ''fields'' = JObj fs"
    by (auto simp: taggedMember_def split: jsval.splits)
  with assms have m: "isConvexValidator m" "get m ''kind'' = JStr ''object''"
    and flag: "get m ''isOptional'' \<noteq> JStr ''optional''"
    and dist: "distinct (map fst fs)"
    and lit: "isLiteralValidator (get (JObj fs) ''type'')"
    and total: "list_all (\<lambda>f. \<not> isl (normalize (snd f))) fs"
    by (simp_all add: taggedMember_def)
  define new where "new = map (\<lambda>f. (fst f, projr (normalize (snd f)))) fs"
  have fw: "fieldwise fs new" unfolding new_def by (rule fieldwise_total [OF total])
  with flag have n: "normalize m = Inr (v_object (withoutProto new))"
    using validator_object_iff [OF m fs dist, of "v_object (withoutProto new)"] by auto
  from lit have "get (JObj fs) ''type'' \<noteq> JUndefined"
    by (auto simp: isLiteralValidator_def isConvexValidator_def)
  then obtain l where l: "map_of fs ''type'' = Some l" by (auto split: option.splits)
  with lit have "normalize l = Inr (v_literal (get l ''value''))"
    by (simp add: literal_validator)
  with fieldwise_lookup [OF fw l]
  have "map_of new ''type'' = Some (v_literal (get l ''value''))" by auto
  then have "map_of (withoutProto new) ''type'' = Some (v_literal (get l ''value''))"
    by (simp add: map_of_withoutProto)
  with l fs have "taggedResult m (v_object (withoutProto new))"
    by (simp add: taggedResult_def v_object_def)
  with n show ?thesis by blast
qed

lemma tagged_members:
  "list_all taggedMember ms \<Longrightarrow> \<exists>ds. memberwise ms ds \<and> list_all2 taggedResult ms ds"
proof (induction ms)
  case Nil
  show ?case by (simp add: memberwise_def)
next
  case (Cons m ms)
  then obtain ds where "memberwise ms ds" "list_all2 taggedResult ms ds" by auto
  moreover from Cons.prems obtain d where "normalize m = Inr d" "taggedResult m d"
    using tagged_member [of m] by auto
  ultimately have "memberwise (m # ms) (d # ds) \<and> list_all2 taggedResult (m # ms) (d # ds)"
    by (simp add: memberwise_def)
  then show ?case by blast
qed

lemma fieldwise_id: "''__proto__'' \<notin> fst ` set rs \<Longrightarrow> fieldwise rs ds \<Longrightarrow> withoutProto ds = ds"
  using fieldwise_keys [of rs ds] withoutProto_id [of ds]
  by (metis set_map)

lemma corresponds_normalize:
  "(correspondsKind r d \<longrightarrow>
      normalizeValidator r = wrapOptional (get r ''isOptional'' = JStr ''optional'') (Inr d))
   \<and> (corresponds r' d' \<longrightarrow> normalize r' = Inr d')
   \<and> (correspondsFields rs ds \<longrightarrow> fieldwise rs ds)
   \<and> (correspondsMembers ms es \<longrightarrow> memberwise ms es)"
proof (induction rule: correspondsKind_corresponds_correspondsFields_correspondsMembers.induct)
  case (primitive_kind r k)
  then show ?case by (auto simp: normalizeValidator.simps)
next
  case (number_kind r)
  then show ?case by (simp add: normalizeValidator.simps v_number_def)
next
  case (id_kind r)
  then show ?case by (simp add: normalizeValidator.simps)
next
  case (literal_kind r)
  then show ?case by (simp add: normalizeValidator.simps v_literal_def)
next
  case (object_kind r rs ds)
  then have "forEntries normalize rs [] = Inr ds"
    using forEntries_normalize [of rs ds] fieldwise_id [of rs ds] by auto
  with object_kind show ?case by (simp add: normalizeValidator_object)
next
  case (array_kind r e)
  then show ?case by (simp add: normalizeValidator.simps)
next
  case (union_kind r ms ds)
  then have "mapE normalize ms = Inr ds" by (simp add: mapE_Inr_iff memberwise_def)
  with union_kind show ?case by (simp add: normalizeValidator_union)
next
  case (record_kind r kd vd)
  then show ?case by (simp add: normalizeValidator.simps)
next
  case (not_flagged r d)
  then show ?case by (simp add: normalize_validator wrapOptional_def)
next
  case (flagged r d)
  then show ?case by (simp add: normalize_validator wrapOptional_def v_optional_def)
next
  case no_fields
  show ?case by (simp add: fieldwise_def)
next
  case (field r d rs ds k)
  then show ?case by (simp add: fieldwise_def)
next
  case no_members
  show ?case by (simp add: memberwise_def)
next
  case (member r d rs ds)
  then show ?case by (simp add: memberwise_def)
qed

text \<open>
  Apart from a field named \<^verbatim>\<open>__proto__\<close>, the loops keep every field, in the order of the
  input, and \<^verbatim>\<open>members.map\<close> keeps every member at its position.
\<close>

lemma order_kept_without_proto:
  "(\<not> isCodegenDescriptor (JObj fs) \<and> \<not> isConvexValidator (JObj fs) \<and> distinct (map fst fs)
      \<and> ''__proto__'' \<notin> fst ` set fs
      \<longrightarrow> (normalize (JObj fs) = Inr d \<longleftrightarrow>
             (\<exists>props. d = v_object props \<and> map fst props = map fst fs \<and> fieldwise fs props)))
   \<and> (isConvexValidator v \<and> get v ''kind'' = JStr ''object'' \<and> get v ''fields'' = JObj fs'
        \<and> distinct (map fst fs') \<and> ''__proto__'' \<notin> fst ` set fs'
      \<longrightarrow> (normalize v = Inr d' \<longleftrightarrow>
             (\<exists>props. d' = (if get v ''isOptional'' = JStr ''optional''
                            then v_optional (v_object props) else v_object props)
                \<and> map fst props = map fst fs' \<and> fieldwise fs' props)))
   \<and> (isConvexValidator u \<and> get u ''kind'' = JStr ''union'' \<and> get u ''members'' = JArr ms
      \<longrightarrow> (normalize u = Inr d'' \<longleftrightarrow>
             (\<exists>ds. d'' = (if get u ''isOptional'' = JStr ''optional''
                          then v_optional (v_union ds) else v_union ds)
                \<and> length ds = length ms \<and> memberwise ms ds)))"
proof (intro conjI impI)
  assume h: "\<not> isCodegenDescriptor (JObj fs) \<and> \<not> isConvexValidator (JObj fs)
      \<and> distinct (map fst fs) \<and> ''__proto__'' \<notin> fst ` set fs"
  then have "normalize (JObj fs) = Inr d \<longleftrightarrow>
      (\<exists>new. d = v_object (withoutProto new) \<and> fieldwise fs new)"
    by (intro mapping_object_iff) simp_all
  with h show "normalize (JObj fs) = Inr d \<longleftrightarrow>
      (\<exists>props. d = v_object props \<and> map fst props = map fst fs \<and> fieldwise fs props)"
    using fieldwise_id [of fs] fieldwise_keys [of fs] by metis
next
  assume h: "isConvexValidator v \<and> get v ''kind'' = JStr ''object'' \<and> get v ''fields'' = JObj fs'
      \<and> distinct (map fst fs') \<and> ''__proto__'' \<notin> fst ` set fs'"
  then have "normalize v = Inr d' \<longleftrightarrow>
      (\<exists>new. d' = (if get v ''isOptional'' = JStr ''optional''
                   then v_optional (v_object (withoutProto new))
                   else v_object (withoutProto new))
         \<and> fieldwise fs' new)"
    by (intro validator_object_iff) simp_all
  with h show "normalize v = Inr d' \<longleftrightarrow>
      (\<exists>props. d' = (if get v ''isOptional'' = JStr ''optional''
                     then v_optional (v_object props) else v_object props)
         \<and> map fst props = map fst fs' \<and> fieldwise fs' props)"
    using fieldwise_id [of fs'] fieldwise_keys [of fs'] by metis
next
  assume "isConvexValidator u \<and> get u ''kind'' = JStr ''union'' \<and> get u ''members'' = JArr ms"
  then have "normalize u = Inr d'' \<longleftrightarrow>
      (\<exists>ds. d'' = (if get u ''isOptional'' = JStr ''optional''
                  then v_optional (v_union ds) else v_union ds)
         \<and> memberwise ms ds)"
    by (intro validator_union_iff) simp_all
  then show "normalize u = Inr d'' \<longleftrightarrow>
      (\<exists>ds. d'' = (if get u ''isOptional'' = JStr ''optional''
                  then v_optional (v_union ds) else v_union ds)
         \<and> length ds = length ms \<and> memberwise ms ds)"
    using memberwise_length by blast
qed









section \<open>Claims\<close>

text \<open>
  C1. Claimed: an object validator given as a raw field mapping of canonical Descriptors, as
  the canonical object Descriptor of those fields, and as a real-library object validator
  with the corresponding fields normalizes to the same Descriptor in all three shapes. The
  validator \<^verbatim>\<open>v.object({ x: v.float64() })\<close> is a case where it does not. The stand-in
  constructors of \<^verbatim>\<open>src/js/mocks/convex_values.ts\<close> give the field the canonical Descriptor
  \<^verbatim>\<open>{ type: "float64" }\<close>, and both the raw mapping and the canonical object keep it; the
  real library gives the field the kind \<^verbatim>\<open>"float64"\<close>, and the real object validator
  normalizes to an object whose field is \<^verbatim>\<open>{ type: "number" }\<close>.
\<close>

theorem three_shapes_float64_differ:
  "normalize (JObj [(''x'', v_float64)]) = Inr (v_object [(''x'', v_float64)])
   \<and> normalize (v_object [(''x'', v_float64)]) = Inr (v_object [(''x'', v_float64)])
   \<and> normalize
         (JObj [(''kind'', JStr ''object''),
                (''fields'',
                 JObj [(''x'', JObj [(''kind'', JStr ''float64''),
                                      (''isOptional'', JStr ''required''),
                                      (''isConvexValidator'', JBool True)])]),
                (''isOptional'', JStr ''required''), (''isConvexValidator'', JBool True)])
       = Inr (v_object [(''x'', v_number)])
   \<and> v_object [(''x'', v_number)] \<noteq> v_object [(''x'', v_float64)]"
  by code_simp

text \<open>
  C1, as the source has it: let a real-library object validator, not flagged optional, have
  distinct field names, none of them \<^verbatim>\<open>__proto__\<close>, and let a raw field mapping have the same
  field names in the same order, each field holding the canonical Descriptor that
  corresponds to the real validator of that field (built by the same constructors, where
  the real kind \<^verbatim>\<open>"float64"\<close> corresponds to \<^verbatim>\<open>{ type: "number" }\<close>). Then the values of the
  mapping are canonical Descriptors, and the raw mapping, the canonical object Descriptor
  of the mapping and the real validator all normalize to that canonical object Descriptor.
\<close>

theorem three_shapes_agree:
  assumes "distinct (map fst fs)" and "''__proto__'' \<notin> fst ` set fs"
    and "isConvexValidator r" and "get r ''kind'' = JStr ''object''"
    and "get r ''isOptional'' \<noteq> JStr ''optional''"
    and "get r ''fields'' = JObj rs" and "correspondsFields rs fs"
  shows "list_all (\<lambda>f. isCodegenDescriptor (snd f)) fs
    \<and> normalize (JObj fs) = Inr (v_object fs)
    \<and> normalize (v_object fs) = Inr (v_object fs)
    \<and> normalize r = Inr (v_object fs)"
proof -
  from assms(7) have fw: "fieldwise rs fs" using corresponds_normalize by blast
  have 0: "list_all (\<lambda>f. isCodegenDescriptor (snd f)) fs"
    using fw unfolding fieldwise_def
    by (induction rs fs rule: list_all2_induct) (auto dest: normalize_result_canonical)
  have keep: "withoutProto fs = fs" by (rule withoutProto_id [OF assms(2)])
  have "fieldwise fs fs" using fieldwise_canonical [OF 0] by simp
  with keep have 1: "normalize (JObj fs) = Inr (v_object fs)"
    using mapping_object_iff [OF canonical_fields_mapping [OF 0] assms(1), of "v_object fs"]
    by auto
  have 2: "normalize (v_object fs) = Inr (v_object fs)"
    by (rule normalize_canonical) (simp add: isCodegenDescriptor_def v_object_def)
  have "map fst rs = map fst fs" using fieldwise_keys [OF fw] by simp
  with assms(1) have "distinct (map fst rs)" by simp
  from validator_object_iff [OF assms(3,4,6) this, of "v_object fs"] assms(5) fw keep
  have 3: "normalize r = Inr (v_object fs)" by auto
  from 0 1 2 3 show ?thesis by simp
qed

theorem three_shapes_agree_witness:
  "normalize (JObj [(''name'', v_string), (''score'', v_number), (''bio'', v_optional v_string)])
     = Inr (v_object [(''name'', v_string), (''score'', v_number),
                      (''bio'', v_optional v_string)])
   \<and> normalize (v_object [(''name'', v_string), (''score'', v_number),
                          (''bio'', v_optional v_string)])
     = Inr (v_object [(''name'', v_string), (''score'', v_number),
                      (''bio'', v_optional v_string)])
   \<and> normalize
         (JObj [(''kind'', JStr ''object''),
                (''fields'',
                 JObj [(''name'', JObj [(''kind'', JStr ''string''),
                                         (''isOptional'', JStr ''required''),
                                         (''isConvexValidator'', JBool True)]),
                       (''score'', JObj [(''kind'', JStr ''float64''),
                                          (''isOptional'', JStr ''required''),
                                          (''isConvexValidator'', JBool True)]),
                       (''bio'', JObj [(''kind'', JStr ''string''),
                                        (''isOptional'', JStr ''optional''),
                                        (''isConvexValidator'', JBool True)])]),
                (''isOptional'', JStr ''required''), (''isConvexValidator'', JBool True)])
     = Inr (v_object [(''name'', v_string), (''score'', v_number),
                      (''bio'', v_optional v_string)])"
proof -
  let ?s = "JObj [(''kind'', JStr ''string''), (''isOptional'', JStr ''required''),
                  (''isConvexValidator'', JBool True)]"
  let ?n = "JObj [(''kind'', JStr ''float64''), (''isOptional'', JStr ''required''),
                  (''isConvexValidator'', JBool True)]"
  let ?o = "JObj [(''kind'', JStr ''string''), (''isOptional'', JStr ''optional''),
                  (''isConvexValidator'', JBool True)]"
  let ?fs = "[(''name'', v_string), (''score'', v_number), (''bio'', v_optional v_string)]"
  let ?rs = "[(''name'', ?s), (''score'', ?n), (''bio'', ?o)]"
  let ?r = "JObj [(''kind'', JStr ''object''), (''fields'', JObj ?rs),
                  (''isOptional'', JStr ''required''), (''isConvexValidator'', JBool True)]"
  have si: "correspondsKind ?s v_string" and oi: "correspondsKind ?o v_string"
    unfolding v_string_def by (rule primitive_kind; simp)+
  have ni: "correspondsKind ?n v_number" by (rule number_kind) simp
  have s: "corresponds ?s v_string"
    by (rule not_flagged [OF _ _ si]) (simp_all add: isConvexValidator_def)
  have n: "corresponds ?n v_number"
    by (rule not_flagged [OF _ _ ni]) (simp_all add: isConvexValidator_def)
  have o: "corresponds ?o (v_optional v_string)"
    by (rule flagged [OF _ _ oi]) (simp_all add: isConvexValidator_def)
  have 1: "distinct (map fst ?fs)" by simp
  have 2: "''__proto__'' \<notin> fst ` set ?fs" by simp
  have 3: "isConvexValidator ?r" by code_simp
  have 4: "get ?r ''kind'' = JStr ''object''" by simp
  have 5: "get ?r ''isOptional'' \<noteq> JStr ''optional''" by simp
  have 6: "get ?r ''fields'' = JObj ?rs" by simp
  have 7: "correspondsFields ?rs ?fs" by (intro field no_fields s n o)
  from three_shapes_agree [OF 1 2 3 4 5 6 7] show ?thesis by simp
qed

text \<open>
  C2. Claimed: a real-library validator of kind \<^verbatim>\<open>"float64"\<close> that is not flagged optional
  normalizes to the Descriptor whose \<^verbatim>\<open>type\<close> is \<^verbatim>\<open>"float64"\<close>. The source maps that kind to
  \<^verbatim>\<open>{ type: "number" }\<close>: the validator \<^verbatim>\<open>{ kind: "float64", isOptional: "required",
  isConvexValidator: true }\<close> normalizes to \<^verbatim>\<open>{ type: "number" }\<close>, which is not
  \<^verbatim>\<open>{ type: "float64" }\<close>, and its \<^verbatim>\<open>type\<close> is not \<^verbatim>\<open>"float64"\<close>.
\<close>

theorem float64_validator_not_float64:
  "normalize (JObj [(''kind'', JStr ''float64''), (''isOptional'', JStr ''required''),
                    (''isConvexValidator'', JBool True)])
     = Inr (JObj [(''type'', JStr ''number'')])
   \<and> normalize (JObj [(''kind'', JStr ''float64''), (''isOptional'', JStr ''required''),
                      (''isConvexValidator'', JBool True)])
     \<noteq> Inr (JObj [(''type'', JStr ''float64'')])
   \<and> get (JObj [(''type'', JStr ''number'')]) ''type'' \<noteq> JStr ''float64''"
  by (simp add: normalize_validator isConvexValidator_def normalizeValidator.simps
      wrapOptional_def)

text \<open>
  C2, as the source has it: every real-library validator of kind \<^verbatim>\<open>"float64"\<close> that is not
  flagged optional normalizes to the Descriptor \<^verbatim>\<open>{ type: "number" }\<close>.
\<close>

theorem float64_validator_number:
  "isConvexValidator v \<Longrightarrow> get v ''kind'' = JStr ''float64'' \<Longrightarrow>
   get v ''isOptional'' \<noteq> JStr ''optional'' \<Longrightarrow>
   normalize v = Inr (JObj [(''type'', JStr ''number'')])"
  by (simp add: normalize_validator normalizeValidator.simps wrapOptional_def)

theorem float64_validator_number_witness:
  "isConvexValidator (JObj [(''kind'', JStr ''float64''), (''isOptional'', JStr ''required''),
                            (''isConvexValidator'', JBool True)])
   \<and> normalize (JObj [(''kind'', JStr ''float64''), (''isOptional'', JStr ''required''),
                      (''isConvexValidator'', JBool True)])
       = Inr (JObj [(''type'', JStr ''number'')])"
  using float64_validator_number
    [of "JObj [(''kind'', JStr ''float64''), (''isOptional'', JStr ''required''),
               (''isConvexValidator'', JBool True)]"]
  by (simp add: isConvexValidator_def)

text \<open>
  C3. A real-library validator flagged optional normalizes to one optional wrapper around
  what the same validator normalizes to without the flag, and that inner Descriptor is not
  an optional wrapper itself (so there is one wrapper, not none and not two); an exception
  of the inner normalization is the exception of the whole. A real-library validator that
  is not flagged optional never normalizes to an optional wrapper. The kind of the
  validator plays no role.
\<close>

theorem optional_wrapped_once:
  "isConvexValidator v \<Longrightarrow>
   (get v ''isOptional'' = JStr ''optional'' \<longrightarrow>
      normalize v =
        (case normalize (required v) of
           Inl e \<Rightarrow> Inl e
         | Inr inner \<Rightarrow> Inr (v_optional inner)))
   \<and> (\<forall>inner. normalize (required v) = Inr inner \<longrightarrow> get inner ''type'' \<noteq> JStr ''optional'')
   \<and> (get v ''isOptional'' \<noteq> JStr ''optional'' \<longrightarrow>
        (\<forall>d. normalize v = Inr d \<longrightarrow> get d ''type'' \<noteq> JStr ''optional''))"
proof -
  assume v: "isConvexValidator v"
  then have r: "isConvexValidator (required v)" by (rule required_validator)
  have flag: "get (required v) ''isOptional'' \<noteq> JStr ''optional''"
    by (simp add: get_required [OF v])
  have 1: "normalize v =
      wrapOptional (get v ''isOptional'' = JStr ''optional'') (normalize (required v))"
    using normalizeValidator_required [OF v]
    by (simp add: normalize_validator [OF v] normalize_validator [OF r])
  have 2: "get inner ''type'' \<noteq> JStr ''optional''" if "normalize (required v) = Inr inner" for inner
    using that switch_not_optional [OF _ flag] by (simp add: normalize_validator [OF r])
  have 3: "get d ''type'' \<noteq> JStr ''optional''"
    if "get v ''isOptional'' \<noteq> JStr ''optional''" and "normalize v = Inr d" for d
    using that switch_not_optional [of v d] by (simp add: normalize_validator [OF v])
  from 1 2 3 show ?thesis
    by (auto simp: wrapOptional_def v_optional_def split: sum.splits)
qed

theorem optional_wrapped_once_witness:
  "normalize (JObj [(''kind'', JStr ''string''), (''isOptional'', JStr ''optional''),
                    (''isConvexValidator'', JBool True)])
     = Inr (v_optional v_string)
   \<and> normalize (required (JObj [(''kind'', JStr ''string''), (''isOptional'', JStr ''optional''),
                                (''isConvexValidator'', JBool True)]))
     = Inr v_string
   \<and> get v_string ''type'' \<noteq> JStr ''optional''
   \<and> get (v_optional v_string) ''type'' = JStr ''optional''"
proof -
  let ?v = "JObj [(''kind'', JStr ''string''), (''isOptional'', JStr ''optional''),
                  (''isConvexValidator'', JBool True)]"
  have v: "isConvexValidator ?v" by code_simp
  have r: "normalize (required ?v) = Inr v_string" by code_simp
  have f: "get ?v ''isOptional'' = JStr ''optional''" by simp
  from optional_wrapped_once [OF v] f r show ?thesis
    by (simp add: v_optional_def)
qed

text \<open>
  C4. Claimed: a real-library union validator whose members are object validators with a
  literal \<^verbatim>\<open>type\<close> field normalizes to a union Descriptor. When the union validator is
  flagged optional, as \<^verbatim>\<open>v.optional(v.union(...))\<close> builds it, \<^verbatim>\<open>normalize\<close> returns an
  optional Descriptor whose \<^verbatim>\<open>inner\<close> is the union Descriptor; the \<^verbatim>\<open>type\<close> of what it returns
  is \<^verbatim>\<open>"optional"\<close>, not \<^verbatim>\<open>"union"\<close>.
\<close>

theorem optional_union_not_union:
  "normalize
     (JObj [(''kind'', JStr ''union''), (''isOptional'', JStr ''optional''),
            (''isConvexValidator'', JBool True),
            (''members'',
             JArr [JObj [(''kind'', JStr ''object''), (''isOptional'', JStr ''required''),
                         (''isConvexValidator'', JBool True),
                         (''fields'',
                          JObj [(''type'', JObj [(''kind'', JStr ''literal''),
                                                  (''value'', JStr ''Draw''),
                                                  (''isOptional'', JStr ''required''),
                                                  (''isConvexValidator'', JBool True)])])]])])
     = Inr (v_optional (v_union [v_object [(''type'', v_literal (JStr ''Draw''))]]))
   \<and> get (v_optional (v_union [v_object [(''type'', v_literal (JStr ''Draw''))]])) ''type''
       \<noteq> JStr ''union''"
  by code_simp

text \<open>
  C4, as the source has it: for a real-library union validator whose members are object
  validators, not flagged optional, each with distinct field names, a field \<^verbatim>\<open>type\<close> that is
  a literal validator not flagged optional, and fields that normalize without an exception,
  \<^verbatim>\<open>normalize\<close> returns a union Descriptor (inside one optional wrapper when the union
  validator is flagged optional) with the same number of members in the same order, each
  an object Descriptor whose \<^verbatim>\<open>type\<close> field is the literal Descriptor of the member's
  literal value.
\<close>

theorem tagged_union_preserved:
  assumes "isConvexValidator u" and "get u ''kind'' = JStr ''union''"
    and "get u ''members'' = JArr ms" and "list_all taggedMember ms"
  shows "\<exists>ds. normalize u =
            Inr (if get u ''isOptional'' = JStr ''optional''
                 then v_optional (v_union ds) else v_union ds)
          \<and> length ds = length ms \<and> list_all2 taggedResult ms ds"
proof -
  from tagged_members [OF assms(4)] obtain ds
    where ds: "memberwise ms ds" "list_all2 taggedResult ms ds" by blast
  then have "normalize u =
      Inr (if get u ''isOptional'' = JStr ''optional''
           then v_optional (v_union ds) else v_union ds)"
    using validator_union_iff [OF assms(1-3)] by blast
  with ds memberwise_length [OF ds(1)] show ?thesis by blast
qed

theorem tagged_union_preserved_witness:
  "\<exists>ds. normalize
          (JObj [(''kind'', JStr ''union''), (''isOptional'', JStr ''required''),
                 (''isConvexValidator'', JBool True),
                 (''members'',
                  JArr [JObj [(''kind'', JStr ''object''), (''isOptional'', JStr ''required''),
                              (''isConvexValidator'', JBool True),
                              (''fields'',
                               JObj [(''type'', JObj [(''kind'', JStr ''literal''),
                                                       (''value'', JStr ''Win''),
                                                       (''isOptional'', JStr ''required''),
                                                       (''isConvexValidator'', JBool True)]),
                                     (''bonus'', JObj [(''kind'', JStr ''float64''),
                                                        (''isOptional'', JStr ''required''),
                                                        (''isConvexValidator'', JBool True)])])],
                        JObj [(''kind'', JStr ''object''), (''isOptional'', JStr ''required''),
                              (''isConvexValidator'', JBool True),
                              (''fields'',
                               JObj [(''type'', JObj [(''kind'', JStr ''literal''),
                                                       (''value'', JStr ''Draw''),
                                                       (''isOptional'', JStr ''required''),
                                                       (''isConvexValidator'', JBool True)])])]])])
        = Inr (v_union ds)
      \<and> length ds = 2
      \<and> get (get (ds ! 0) ''properties'') ''type'' = v_literal (JStr ''Win'')
      \<and> get (get (ds ! 1) ''properties'') ''type'' = v_literal (JStr ''Draw'')"
proof -
  let ?win = "JObj [(''kind'', JStr ''object''), (''isOptional'', JStr ''required''),
                    (''isConvexValidator'', JBool True),
                    (''fields'',
                     JObj [(''type'', JObj [(''kind'', JStr ''literal''),
                                             (''value'', JStr ''Win''),
                                             (''isOptional'', JStr ''required''),
                                             (''isConvexValidator'', JBool True)]),
                           (''bonus'', JObj [(''kind'', JStr ''float64''),
                                              (''isOptional'', JStr ''required''),
                                              (''isConvexValidator'', JBool True)])])]"
  let ?draw = "JObj [(''kind'', JStr ''object''), (''isOptional'', JStr ''required''),
                     (''isConvexValidator'', JBool True),
                     (''fields'',
                      JObj [(''type'', JObj [(''kind'', JStr ''literal''),
                                              (''value'', JStr ''Draw''),
                                              (''isOptional'', JStr ''required''),
                                              (''isConvexValidator'', JBool True)])])]"
  let ?u = "JObj [(''kind'', JStr ''union''), (''isOptional'', JStr ''required''),
                  (''isConvexValidator'', JBool True), (''members'', JArr [?win, ?draw])]"
  have 1: "isConvexValidator ?u" by code_simp
  have 2: "get ?u ''kind'' = JStr ''union''" by simp
  have 3: "get ?u ''members'' = JArr [?win, ?draw]" by simp
  have 4: "list_all taggedMember [?win, ?draw]" by code_simp
  from tagged_union_preserved [OF 1 2 3 4] obtain ds
    where ds: "normalize ?u = Inr (v_union ds)" "length ds = 2"
      "list_all2 taggedResult [?win, ?draw] ds"
    by auto
  from ds(2,3) obtain d1 d2 where "ds = [d1, d2]" "taggedResult ?win d1" "taggedResult ?draw d2"
    by (auto simp: list_all2_Cons1)
  then have "get (get (ds ! 0) ''properties'') ''type'' = v_literal (JStr ''Win'')"
    and "get (get (ds ! 1) ''properties'') ''type'' = v_literal (JStr ''Draw'')"
    by (auto simp: taggedResult_def split: jsval.splits)
  with ds(1,2) show ?thesis by blast
qed

text \<open>
  C5. Claimed: the field sequence of the output object Descriptor equals the field sequence
  of the input, for every raw field mapping and every real-library object validator. Both
  loops copy the fields with \<^verbatim>\<open>properties[key] = normalize(...)\<close> into a plain \<^verbatim>\<open>{}\<close>, and for
  a field named \<^verbatim>\<open>__proto__\<close> that assignment creates no property. The raw mapping with the
  fields \<^verbatim>\<open>__proto__\<close> and \<^verbatim>\<open>a\<close>, and the real object validator with these two fields, both
  normalize to an object Descriptor whose only field is \<^verbatim>\<open>a\<close>. (The other fields keep their
  order, and a union keeps its members in order.)
\<close>

theorem proto_field_dropped:
  "normalize (JObj [(''__proto__'', v_string), (''a'', v_number)])
     = Inr (v_object [(''a'', v_number)])
   \<and> normalize
         (JObj [(''kind'', JStr ''object''),
                (''fields'',
                 JObj [(''__proto__'', JObj [(''kind'', JStr ''string''),
                                              (''isOptional'', JStr ''required''),
                                              (''isConvexValidator'', JBool True)]),
                       (''a'', JObj [(''kind'', JStr ''float64''),
                                      (''isOptional'', JStr ''required''),
                                      (''isConvexValidator'', JBool True)])]),
                (''isOptional'', JStr ''required''), (''isConvexValidator'', JBool True)])
       = Inr (v_object [(''a'', v_number)])
   \<and> map fst [(''a'', v_number)] \<noteq> map fst [(''__proto__'', v_string), (''a'', v_number)]"
  by code_simp

text \<open>
  C6. A value that is none of an already-canonical descriptor, a real-library validator
  and a non-array object normalizes to \<^verbatim>\<open>{ type: "any" }\<close> without an exception; a
  real-library validator whose kind is none of the labels of the \<^verbatim>\<open>switch\<close> normalizes to
  \<^verbatim>\<open>{ type: "any" }\<close>, inside one optional wrapper when it is flagged optional, without an
  exception.
\<close>

theorem normalize_unrecognized_any:
  "(\<not> isCodegenDescriptor val \<and> \<not> isConvexValidator val
      \<and> \<not> (val \<noteq> JNull \<and> typeof val = ''object'' \<and> \<not> Array_isArray val)
      \<longrightarrow> normalize val = Inr (JObj [(''type'', JStr ''any'')]))
   \<and> (isConvexValidator v \<and> get v ''kind'' \<notin> JStr ` set knownKinds
      \<longrightarrow> normalize v =
            Inr (if get v ''isOptional'' = JStr ''optional''
                 then JObj [(''type'', JStr ''optional''),
                            (''inner'', JObj [(''type'', JStr ''any'')])]
                 else JObj [(''type'', JStr ''any'')]))"
proof (intro conjI impI)
  assume "\<not> isCodegenDescriptor val \<and> \<not> isConvexValidator val
      \<and> \<not> (val \<noteq> JNull \<and> typeof val = ''object'' \<and> \<not> Array_isArray val)"
  then show "normalize val = Inr (JObj [(''type'', JStr ''any'')])"
    by (intro normalize_fallback) simp_all
next
  assume h: "isConvexValidator v \<and> get v ''kind'' \<notin> JStr ` set knownKinds"
  then have "normalize v = normalizeValidator v" by (simp add: normalize_validator)
  moreover from h have "get v ''kind'' \<notin> JStr ` set knownKinds" by simp
  ultimately show "normalize v =
      Inr (if get v ''isOptional'' = JStr ''optional''
           then JObj [(''type'', JStr ''optional''), (''inner'', JObj [(''type'', JStr ''any'')])]
           else JObj [(''type'', JStr ''any'')])"
    by (simp add: normalizeValidator.simps wrapOptional_def knownKinds_def)
qed

theorem normalize_unrecognized_any_witness:
  "normalize (JArr [JStr ''a'']) = Inr (JObj [(''type'', JStr ''any'')])
   \<and> normalize (JNum (Finite 3)) = Inr (JObj [(''type'', JStr ''any'')])
   \<and> normalize (JObj [(''kind'', JStr ''tuple''), (''isOptional'', JStr ''optional''),
                      (''isConvexValidator'', JBool True)])
       = Inr (JObj [(''type'', JStr ''optional''), (''inner'', JObj [(''type'', JStr ''any'')])])"
  using normalize_unrecognized_any
    [of "JArr [JStr ''a'']"
        "JObj [(''kind'', JStr ''tuple''), (''isOptional'', JStr ''optional''),
               (''isConvexValidator'', JBool True)]"]
    normalize_unrecognized_any [of "JNum (Finite 3)" JNull]
  by (simp add: isCodegenDescriptor_def isConvexValidator_def knownKinds_def)




text \<open>
  C8. Claimed: in the pagination-options constant the cursor field is an optional wrapper
  around a string Descriptor. In both versions of the constant the cursor field is a
  union Descriptor of a string Descriptor and a null Descriptor; it is not
  \<^verbatim>\<open>{ type: "optional", inner: { type: "string" } }\<close> and its \<^verbatim>\<open>type\<close> is not \<^verbatim>\<open>"optional"\<close>.
\<close>

theorem pagination_cursor_not_optional:
  "get (get paginationOptsValidator ''properties'') ''cursor''
     \<noteq> JObj [(''type'', JStr ''optional''), (''inner'', JObj [(''type'', JStr ''string'')])]
   \<and> get (get (get paginationOptsValidator ''properties'') ''cursor'') ''type''
     \<noteq> JStr ''optional''
   \<and> get (get paginationOptsValidator2 ''properties'') ''cursor''
     \<noteq> JObj [(''type'', JStr ''optional''), (''inner'', JObj [(''type'', JStr ''string'')])]
   \<and> get (get (get paginationOptsValidator2 ''properties'') ''cursor'') ''type''
     \<noteq> JStr ''optional''"
  by (simp add: paginationOptsValidator_def paginationOptsValidator2_def)

text \<open>
  C8, as the source has it: the pagination-options constant is a fixed object Descriptor
  with exactly two fields, in this order: the numeric page-size field \<^verbatim>\<open>numItems\<close> (of type
  \<^verbatim>\<open>"number"\<close> in one version of the module, \<^verbatim>\<open>"float64"\<close> in the other) and the field
  \<^verbatim>\<open>cursor\<close>, a union Descriptor of a string Descriptor and a null Descriptor. Both
  versions are already canonical, so \<^verbatim>\<open>normalize\<close> returns them as they are.
\<close>

theorem pagination_shape:
  "paginationOptsValidator =
     v_object [(''numItems'', v_number), (''cursor'', v_union [v_string, v_null])]
   \<and> paginationOptsValidator2 =
     v_object [(''numItems'', v_float64), (''cursor'', v_union [v_string, v_null])]
   \<and> normalize paginationOptsValidator = Inr paginationOptsValidator
   \<and> normalize paginationOptsValidator2 = Inr paginationOptsValidator2"
  by (simp add: paginationOptsValidator_def paginationOptsValidator2_def v_object_def
      v_number_def v_float64_def v_union_def v_string_def v_null_def normalize_canonical
      isCodegenDescriptor_def)

text \<open>
  C9. \<^verbatim>\<open>normalize\<close> is idempotent on already-canonical input: such a value is returned as
  it is, so normalizing the result again gives the same result.
\<close>

theorem normalize_idempotent:
  "isCodegenDescriptor x \<Longrightarrow> normalize x = Inr x \<and> normalizeTwice x = normalize x"
  by (simp add: normalizeTwice_def normalize_canonical)

theorem normalize_idempotent_witness:
  "isCodegenDescriptor (v_optional v_string)
   \<and> normalize (v_optional v_string) = Inr (v_optional v_string)
   \<and> normalizeTwice (v_optional v_string) = normalize (v_optional v_string)"
  using normalize_idempotent [of "v_optional v_string"]
  by (simp add: isCodegenDescriptor_def v_optional_def v_string_def)

text \<open>
  C10. Whatever the input, a value returned by \<^verbatim>\<open>normalize\<close> passes the already-canonical
  test (its \<^verbatim>\<open>type\<close> is a string and it carries no real-validator marker), so
  \<^verbatim>\<open>normalize\<close> returns it unchanged.
\<close>

theorem normalize_output_canonical:
  "normalize val = Inr d \<Longrightarrow>
   isCodegenDescriptor d \<and> typeof (get d ''type'') = ''string''
   \<and> \<not> truthy (get d ''isConvexValidator'') \<and> normalize d = Inr d"
proof -
  assume "normalize val = Inr d"
  then have c: "isCodegenDescriptor d" by (rule normalize_result_canonical)
  then have "normalize d = Inr d" by (rule normalize_canonical)
  with c show ?thesis by (simp add: isCodegenDescriptor_def)
qed

theorem normalize_output_canonical_witness:
  "normalize (JObj [(''kind'', JStr ''array''), (''isOptional'', JStr ''optional''),
                    (''isConvexValidator'', JBool True), (''element'', JBool True)])
     = Inr (JObj [(''type'', JStr ''optional''),
                  (''inner'', JObj [(''type'', JStr ''array''),
                                    (''elements'', JObj [(''type'', JStr ''any'')])])])
   \<and> isCodegenDescriptor
         (JObj [(''type'', JStr ''optional''),
                (''inner'', JObj [(''type'', JStr ''array''),
                                  (''elements'', JObj [(''type'', JStr ''any'')])])])
   \<and> normalize (JObj [(''type'', JStr ''optional''),
                      (''inner'', JObj [(''type'', JStr ''array''),
                                        (''elements'', JObj [(''type'', JStr ''any'')])])])
       = Inr (JObj [(''type'', JStr ''optional''),
                    (''inner'', JObj [(''type'', JStr ''array''),
                                      (''elements'', JObj [(''type'', JStr ''any'')])])])"
proof -
  have h: "normalize (JObj [(''kind'', JStr ''array''), (''isOptional'', JStr ''optional''),
                            (''isConvexValidator'', JBool True), (''element'', JBool True)])
     = Inr (JObj [(''type'', JStr ''optional''),
                  (''inner'', JObj [(''type'', JStr ''array''),
                                    (''elements'', JObj [(''type'', JStr ''any'')])])])"
    by code_simp
  from normalize_output_canonical [OF h] h show ?thesis by simp
qed

end
